theory Spec2Isabelle
  imports Complex_Main
begin

section \<open>Anomaly detection calibration (cotede/anomaly\_detection.py)\<close>

text \<open>
  The module is Python 2 (it uses the \<^verbatim>\<open>print\<close> statement and indexes
  \<^verbatim>\<open>dict.keys()\<close>), so \<^verbatim>\<open>round\<close> rounds halves away from zero and
  \<^verbatim>\<open>keys()[0]\<close> on an empty dictionary raises IndexError.

  Floating-point numbers are modelled by the reals: the grid step \<^verbatim>\<open>0.1\<close> is the
  rational \<open>1/10\<close> and the ratios \<^verbatim>\<open>.2\<close> and \<^verbatim>\<open>.5\<close> are \<open>2/10\<close> and
  \<open>5/10\<close>. NumPy arrays are lists; a masked array is a list of options, \<open>None\<close> being a
  masked entry. Exceptions are values of the type \<open>error\<close>.
\<close>

datatype error = AssertionError | ValueError | IndexError | KeyError | TypeError | UnboundLocalError

subsection \<open>NumPy indexing\<close>

text \<open>\<^verbatim>\<open>np.nonzero(b)[0]\<close>: the positions of the true entries, ascending.\<close>

definition nonzero :: "bool list \<Rightarrow> nat list" where
  "nonzero bs = filter (\<lambda>i. bs ! i) [0..<length bs]"

text \<open>\<^verbatim>\<open>a[idx]\<close> for an integer index array: IndexError when an index is out of bounds.\<close>

definition getitems :: "'a list \<Rightarrow> nat list \<Rightarrow> error + 'a list" where
  "getitems xs idx =
     (if list_all (\<lambda>i. i < length xs) idx then Inr (map (\<lambda>i. xs ! i) idx)
      else Inl IndexError)"

text \<open>\<^verbatim>\<open>a[idx] = v\<close> for an integer index array and a scalar \<open>v\<close>.\<close>

definition setitems :: "'a list \<Rightarrow> nat list \<Rightarrow> 'a \<Rightarrow> error + 'a list" where
  "setitems xs idx v =
     (if list_all (\<lambda>i. i < length xs) idx then Inr (fold (\<lambda>i ys. ys[i := v]) idx xs)
      else Inl IndexError)"

text \<open>\<^verbatim>\<open>a[m]\<close> for a boolean array \<open>m\<close> of the length of \<open>a\<close>.\<close>

definition mask_select :: "'a list \<Rightarrow> bool list \<Rightarrow> 'a list" where
  "mask_select xs m = map fst (filter snd (zip xs m))"

text \<open>\<^verbatim>\<open>a[m] = vs\<close> for a boolean array \<open>m\<close>: the selected positions take the
  values of \<open>vs\<close> in order.\<close>

fun mask_assign :: "'a list \<Rightarrow> bool list \<Rightarrow> 'a list \<Rightarrow> 'a list" where
  "mask_assign (x # xs) (True # m) (v # vs) = v # mask_assign xs m vs"
| "mask_assign (x # xs) (False # m) vs = x # mask_assign xs m vs"
| "mask_assign xs m vs = xs"

text \<open>\<^verbatim>\<open>a[m] = v\<close> for a boolean array \<open>m\<close> and a scalar \<open>v\<close>.\<close>

definition mask_fill :: "'a list \<Rightarrow> bool list \<Rightarrow> 'a \<Rightarrow> 'a list" where
  "mask_fill xs m v = map (\<lambda>(x, b). if b then v else x) (zip xs m)"

text \<open>Python slices \<^verbatim>\<open>a[i:j]\<close>, with \<^verbatim>\<open>a[:j]\<close> and \<^verbatim>\<open>a[i:]\<close> as
  \<open>take\<close> and \<open>drop\<close>.\<close>

definition slice :: "nat \<Rightarrow> nat \<Rightarrow> 'a list \<Rightarrow> 'a list" where
  "slice i j xs = drop i (take j xs)"

text \<open>\<^verbatim>\<open>np.arange(start, stop, step)\<close> has \<open>\<lceil>(stop - start) / step\<rceil>\<close> elements,
  none when that is not positive.\<close>

definition arange :: "real \<Rightarrow> real \<Rightarrow> real \<Rightarrow> real list" where
  "arange start stop step =
     map (\<lambda>i. start + real i * step) [0..<nat \<lceil>(stop - start) / step\<rceil>]"

text \<open>\<^verbatim>\<open>a.argmin()\<close>: the first position of the smallest entry.\<close>

definition argmin :: "nat list \<Rightarrow> nat" where
  "argmin xs = length (takeWhile (\<lambda>x. x \<noteq> Min (set xs)) xs)"

subsection \<open>\<^verbatim>\<open>estimate_p_optimal\<close>\<close>

text \<open>\<^verbatim>\<open>prob[np.nonzero(binflag)]\<close> and \<^verbatim>\<open>prob[np.nonzero(~binflag)]\<close>: the scores
  of the rows labelled good and of the rows labelled bad. Both are taken after the
  assertion on the shapes, so the indices are in range.\<close>

definition good_scores :: "real list \<Rightarrow> bool list \<Rightarrow> real list" where
  "good_scores prob binflag = map (\<lambda>i. prob ! i) (nonzero binflag)"

definition bad_scores :: "real list \<Rightarrow> bool list \<Rightarrow> real list" where
  "bad_scores prob binflag = map (\<lambda>i. prob ! i) (nonzero (map Not binflag))"

text \<open>\<^verbatim>\<open>p_limit = prob[np.nonzero(binflag)].min() - 0.1\<close>\<close>

definition p_limit :: "real list \<Rightarrow> bool list \<Rightarrow> real" where
  "p_limit prob binflag = Min (set (good_scores prob binflag)) - 1 / 10"

text \<open>\<^verbatim>\<open>P = -np.arange(0, -p_limit, 0.1)\<close>: the candidates \<open>0, -0.1, -0.2, \<dots>\<close>,
  in that order.\<close>

definition grid :: "real list \<Rightarrow> bool list \<Rightarrow> real list" where
  "grid prob binflag = map uminus (arange 0 (- p_limit prob binflag) (1 / 10))"

definition false_negative :: "real list \<Rightarrow> bool list \<Rightarrow> real \<Rightarrow> nat" where
  "false_negative prob binflag p = length (filter (\<lambda>x. x < p) (good_scores prob binflag))"

definition false_positive :: "real list \<Rightarrow> bool list \<Rightarrow> real \<Rightarrow> nat" where
  "false_positive prob binflag p = length (filter (\<lambda>x. p < x) (bad_scores prob binflag))"

definition err_at :: "real list \<Rightarrow> bool list \<Rightarrow> real \<Rightarrow> nat" where
  "err_at prob binflag p = false_negative prob binflag p + false_positive prob binflag p"

text \<open>
  The result is the pair \<^verbatim>\<open>(P[err.argmin()], float(err.min())/prob.size)\<close>. The
  assertion on the shapes fails with AssertionError; \<^verbatim>\<open>.min()\<close> of no good score
  and \<^verbatim>\<open>argmin\<close> of an empty grid raise ValueError. The assertion on the dtype
  is the type \<open>bool list\<close>.
\<close>

definition estimate_p_optimal :: "real list \<Rightarrow> bool list \<Rightarrow> error + real \<times> real" where
  "estimate_p_optimal prob binflag =
     (if length prob \<noteq> length binflag then Inl AssertionError
      else if good_scores prob binflag = [] then Inl ValueError
      else
        let P = grid prob binflag;
            err = map (err_at prob binflag) P
        in if P = [] then Inl ValueError
           else Inr (P ! argmin err, real (Min (set err)) / real (length prob)))"

subsection \<open>\<^verbatim>\<open>split_data_groups\<close>\<close>

text \<open>
  The flag array is an integer array, possibly masked: \<open>None\<close> is a missing flag, and
  \<^verbatim>\<open>flag == f\<close> is false at a missing entry. \<^verbatim>\<open>ind\<close> starts fully masked
  (\<^verbatim>\<open>ma.masked_all\<close>), is set to True where the flag is a good code and then to
  False where it is a bad code.
\<close>

definition flag_eq :: "int option list \<Rightarrow> int \<Rightarrow> bool list" where
  "flag_eq flag f = map (\<lambda>x. x = Some f) flag"

definition label_ind :: "int option list \<Rightarrow> int list \<Rightarrow> int list \<Rightarrow> bool option list" where
  "label_ind flag good_flags bad_flags =
     fold (\<lambda>f ind. mask_fill ind (flag_eq flag f) (Some False)) bad_flags
       (fold (\<lambda>f ind. mask_fill ind (flag_eq flag f) (Some True)) good_flags
          (replicate (length flag) None))"

text \<open>\<^verbatim>\<open>np.nonzero((ind == True) & ind_valid)[0]\<close> and
  \<^verbatim>\<open>np.nonzero((ind == False) & ind_valid)[0]\<close>, where
  \<^verbatim>\<open>ind_valid = ~ma.getmaskarray(ind)\<close>.\<close>

definition ind_good :: "bool option list \<Rightarrow> nat list" where
  "ind_good ind =
     nonzero (map (\<lambda>(a, b). a \<and> b) (zip (map (\<lambda>x. x = Some True) ind) (map (\<lambda>x. x \<noteq> None) ind)))"

definition ind_bad :: "bool option list \<Rightarrow> nat list" where
  "ind_bad ind =
     nonzero (map (\<lambda>(a, b). a \<and> b) (zip (map (\<lambda>x. x = Some False) ind) (map (\<lambda>x. x \<noteq> None) ind)))"

text \<open>Python 2's \<^verbatim>\<open>round\<close>: to the nearest integer, halves away from zero.\<close>

definition py2_round :: "real \<Rightarrow> int" where
  "py2_round x = (if 0 \<le> x then \<lfloor>x + 1 / 2\<rfloor> else \<lceil>x - 1 / 2\<rceil>)"

text \<open>\<^verbatim>\<open>a[src[idx]] = True\<close>: both the read of \<open>src\<close> and the write to \<open>a\<close> raise
  IndexError out of bounds.\<close>

definition mark :: "bool list \<Rightarrow> nat list \<Rightarrow> nat list \<Rightarrow> error + bool list" where
  "mark a src idx =
     (case getitems src idx of Inl e \<Rightarrow> Inl e | Inr rows \<Rightarrow> setitems a rows True)"

record groups =
  ind_fit :: "bool list"
  ind_test :: "bool list"
  ind_err :: "bool list"

text \<open>
  The two calls of \<^verbatim>\<open>np.random.permutation\<close> are the random source of the function:
  their results are the parameters \<open>perm_good\<close> and \<open>perm_bad\<close>. NumPy returns a
  permutation of \<open>0, \<dots>, n - 1\<close>, which the theorems assume as \<open>is_permutation\<close>. The
  result stands for the dictionary with the keys \<^verbatim>\<open>fit\<close>, \<^verbatim>\<open>test\<close> and
  \<^verbatim>\<open>err\<close>.
\<close>

definition is_permutation :: "nat list \<Rightarrow> nat \<Rightarrow> bool" where
  "is_permutation p n \<longleftrightarrow> distinct p \<and> set p = {0..<n}"

definition split_data_groups ::
    "int option list \<Rightarrow> int list \<Rightarrow> int list \<Rightarrow> nat list \<Rightarrow> nat list \<Rightarrow> error + groups" where
  "split_data_groups flag good_flags bad_flags perm_good perm_bad =
     (let ind = label_ind flag good_flags bad_flags;
          N = length ind;
          ind_base = replicate N False;
          good = ind_good ind;
          N_good = length good;
          N_test = nat (py2_round (real N_good * (2 / 10)))
      in case mark ind_base good (take N_test perm_good) of Inl e \<Rightarrow> Inl e | Inr test1 \<Rightarrow>
         case mark ind_base good (slice N_test (2 * N_test) perm_good) of Inl e \<Rightarrow> Inl e | Inr err1 \<Rightarrow>
         case mark ind_base good (drop (2 * N_test) perm_good) of Inl e \<Rightarrow> Inl e | Inr fit1 \<Rightarrow>
         let bad = ind_bad ind;
             N_bad = length bad;
             N_test = nat (py2_round (real N_bad * (5 / 10)))
         in case mark test1 bad (take N_test perm_bad) of Inl e \<Rightarrow> Inl e | Inr test2 \<Rightarrow>
            case mark err1 bad (drop N_test perm_bad) of Inl e \<Rightarrow> Inl e | Inr err2 \<Rightarrow>
            Inr \<lparr>ind_fit = fit1, ind_test = test2, ind_err = err2\<rparr>)"

text \<open>The rows a boolean index array selects, and the rows of a flag array whose code
  is in a given set.\<close>

definition rows :: "bool list \<Rightarrow> nat set" where
  "rows bs = set (nonzero bs)"

definition flagged :: "int option list \<Rightarrow> int set \<Rightarrow> nat set" where
  "flagged flag codes = set (nonzero (map (\<lambda>x. case x of None \<Rightarrow> False | Some f \<Rightarrow> f \<in> codes) flag))"

subsection \<open>\<^verbatim>\<open>estimate_anomaly\<close>\<close>

text \<open>
  \<^verbatim>\<open>features\<close> and \<^verbatim>\<open>params\<close> are dictionaries; they are association lists
  with distinct keys, in the order of \<^verbatim>\<open>keys()\<close>. A feature column is a masked
  array. A fitted parameter is the tuple \<^verbatim>\<open>(a, c, loc, scale)\<close> that
  \<^verbatim>\<open>exponweib.fit\<close> returns. SciPy's \<^verbatim>\<open>exponweib.sf\<close> is the parameter \<open>sf\<close>:
  \<open>sf (a, c, loc, scale) x\<close> is \<^verbatim>\<open>exponweib.sf(x, a, c, loc=loc, scale=scale)\<close>.
  The theorems about scores assume that it returns a probability; then every value
  is positive after the floor, \<^verbatim>\<open>ma.log\<close> masks nothing and is the logarithm.
\<close>

record test_params =
  param :: "real \<times> real \<times> real \<times> real"
  qlimit :: real

type_synonym survival = "real \<times> real \<times> real \<times> real \<Rightarrow> real \<Rightarrow> real"

text \<open>\<^verbatim>\<open>np.asanyarray(col)[~ma.getmaskarray(col)]\<close>: the values that are not masked.\<close>

fun compressed :: "'a option list \<Rightarrow> 'a list" where
  "compressed [] = []"
| "compressed (None # xs) = compressed xs"
| "compressed (Some x # xs) = x # compressed xs"

text \<open>\<^verbatim>\<open>tmp[tmp == 0] = 1e-15\<close>\<close>

definition floor_zero :: "real list \<Rightarrow> real list" where
  "floor_zero tmp = mask_fill tmp (map (\<lambda>y. y = 0) tmp) (1 / 10 ^ 15)"

text \<open>
  The builtin \<^verbatim>\<open>min(a, b)\<close> on two arrays returns \<open>b\<close> when \<^verbatim>\<open>b < a\<close> is true and
  \<open>a\<close> otherwise. \<^verbatim>\<open>b < a\<close> is an array; its truth value is that of its element when
  it has one, false when it has none, and a ValueError when it has more.
\<close>

definition py_min :: "real list \<Rightarrow> real list \<Rightarrow> error + real list" where
  "py_min a b =
     (let lt = map (\<lambda>(y, x). y < x) (zip b a)
      in if 1 < length lt then Inl ValueError
         else if lt = [True] then Inr b
         else Inr a)"

text \<open>The loop over \<^verbatim>\<open>params.keys()\<close>. \<open>Inr None\<close> is the bare \<^verbatim>\<open>return\<close>, the
  value \<^verbatim>\<open>None\<close>. A feature that is not a key of \<^verbatim>\<open>features\<close> raises KeyError, a
  column that is not as long as \<^verbatim>\<open>prob\<close> raises IndexError where \<^verbatim>\<open>prob[ind]\<close> is
  read.\<close>

fun estimate_loop ::
    "survival \<Rightarrow> (string \<times> real option list) list \<Rightarrow> string \<Rightarrow>
     (string \<times> test_params) list \<Rightarrow> real list \<Rightarrow> error + real list option" where
  "estimate_loop sf features method [] prob = Inr (Some prob)"
| "estimate_loop sf features method ((t, tp) # rest) prob =
     (case map_of features t of
        None \<Rightarrow> Inl KeyError
      | Some col \<Rightarrow>
          let ind = map (\<lambda>x. x \<noteq> None) col;
              tmp = floor_zero (map (sf (param tp)) (compressed col));
              p = map ln tmp
          in if method = ''produtorium'' then
               if length col \<noteq> length prob then Inl IndexError
               else estimate_loop sf features method rest
                      (mask_assign prob ind (map (\<lambda>(x, y). x + y) (zip (mask_select prob ind) p)))
             else if method = ''min'' then
               if length col \<noteq> length prob then Inl IndexError
               else (case py_min (mask_select prob ind) p of
                       Inl e \<Rightarrow> Inl e
                     | Inr v \<Rightarrow> estimate_loop sf features method rest (mask_assign prob ind v))
             else Inr None)"

text \<open>\<^verbatim>\<open>prob = ma.zeros(len(features[features.keys()[0]]))\<close>: in Python 2
  \<^verbatim>\<open>keys()\<close> is a list, and its element 0 does not exist when the dictionary is
  empty.\<close>

definition estimate_anomaly ::
    "survival \<Rightarrow> (string \<times> real option list) list \<Rightarrow> (string \<times> test_params) list \<Rightarrow> string \<Rightarrow>
     error + real list option" where
  "estimate_anomaly sf features params method =
     (case features of
        [] \<Rightarrow> Inl IndexError
      | (k, col) # _ \<Rightarrow> estimate_loop sf features method params (replicate (length col) 0))"

text \<open>The per-feature term of a row: the logarithm of the floored survival probability
  of the value, and nothing for a masked value or a feature that the table lacks.\<close>

definition log_sf :: "survival \<Rightarrow> test_params \<Rightarrow> real \<Rightarrow> real" where
  "log_sf sf tp x = ln (if sf (param tp) x = 0 then 1 / 10 ^ 15 else sf (param tp) x)"

definition row_terms ::
    "survival \<Rightarrow> (string \<times> real option list) list \<Rightarrow> (string \<times> test_params) list \<Rightarrow> nat \<Rightarrow> real list" where
  "row_terms sf features params i =
     concat (map (\<lambda>(t, tp). case map_of features t of
                                None \<Rightarrow> []
                              | Some col \<Rightarrow> (case col ! i of None \<Rightarrow> [] | Some x \<Rightarrow> [log_sf sf tp x]))
                 params)"

text \<open>A feature table in which the masked value of feature \<open>t\<close> at row \<open>i\<close> has become
  the observed value \<open>v\<close>.\<close>

definition unmask ::
    "string \<Rightarrow> nat \<Rightarrow> real \<Rightarrow> (string \<times> real option list) list \<Rightarrow> (string \<times> real option list) list" where
  "unmask t i v features = map (\<lambda>(k, col). if k = t then (k, col[i := Some v]) else (k, col)) features"

text \<open>The assumption on SciPy's survival function, the tables the scorer accepts (every
  fitted feature is a column of the table, as long as the first column), and the rows
  where every fitted feature is masked.\<close>

definition is_probability :: "survival \<Rightarrow> bool" where
  "is_probability sf \<longleftrightarrow> (\<forall>p x. 0 \<le> sf p x \<and> sf p x \<le> 1)"

definition well_formed ::
    "(string \<times> real option list) list \<Rightarrow> (string \<times> test_params) list \<Rightarrow> nat \<Rightarrow> bool" where
  "well_formed features params n \<longleftrightarrow>
     list_all (\<lambda>(t, tp). case map_of features t of None \<Rightarrow> False | Some col \<Rightarrow> length col = n) params"

definition all_missing ::
    "(string \<times> real option list) list \<Rightarrow> (string \<times> test_params) list \<Rightarrow> nat \<Rightarrow> bool" where
  "all_missing features params i \<longleftrightarrow>
     list_all (\<lambda>(t, tp). case map_of features t of None \<Rightarrow> True | Some col \<Rightarrow> col ! i = None) params"

subsection \<open>The loop of \<^verbatim>\<open>human_calibrate_mistakes\<close>\<close>

text \<open>
  A calibration is what the lines from \<^verbatim>\<open>split_data_groups\<close> to the mistake mask
  compute from the current flags, before the loop and again at the end of every
  iteration: the mask \<^verbatim>\<open>mistake\<close>, the index set \<^verbatim>\<open>indices['err']\<close> and
  \<^verbatim>\<open>p_optimal\<close>. The mask \<^verbatim>\<open>mistake\<close> is a masked array, masked where the
  label of the row is missing.
\<close>

record calibration =
  mistake :: "bool option list"
  indices_err :: "bool list"
  cal_p_optimal :: real

text \<open>\<^verbatim>\<open>float(np.nonzero(mistake[indices['err']])[0].shape[0])\<close> and
  \<^verbatim>\<open>n_err/indices['err'].astype('i').sum()\<close>; the quotient by zero is not a number
  in NumPy, \<open>None\<close> here.\<close>

definition count_err :: "calibration \<Rightarrow> real" where
  "count_err c =
     real (length (filter (\<lambda>m. m = Some True) (mask_select (mistake c) (indices_err c))))"

definition ratio_err :: "real \<Rightarrow> calibration \<Rightarrow> real option" where
  "ratio_err n c =
     (let s = length (filter (\<lambda>b. b) (indices_err c))
      in if s = 0 then None else Some (n / real s))"

text \<open>\<^verbatim>\<open>np.nonzero(m)[0]\<close> for a masked boolean array: the rows that are true and not
  masked. \<^verbatim>\<open>mistake & ~doubt\<close> is masked where \<^verbatim>\<open>mistake\<close> is.\<close>

definition unmasked_true :: "bool option list \<Rightarrow> nat list" where
  "unmasked_true m = nonzero (map (\<lambda>x. x = Some True) m)"

definition and_not :: "bool option list \<Rightarrow> bool list \<Rightarrow> bool option list" where
  "and_not m d = map (\<lambda>(x, b). map_option (\<lambda>a. a \<and> \<not> b) x) (zip m d)"

record entry =
  err :: real
  err_ratio :: "real option"
  p_optimal :: real

text \<open>
  The variables of the function that the loop reads and writes: the latest
  calibration, the array \<^verbatim>\<open>doubt\<close>, \<^verbatim>\<open>n_err\<close>, \<^verbatim>\<open>err_ratio\<close> and
  \<^verbatim>\<open>error_log\<close>.
\<close>

record refine_state =
  current :: calibration
  doubt :: "bool list"
  n_err :: real
  n_err_ratio :: "real option"
  error_log :: "entry list"

text \<open>
  Loading the data, the reviewer, the fit and the random split are outside the model.
  What they contribute to one iteration is a value of \<open>review\<close>: the rows that the
  reviewer answers \<^verbatim>\<open>'doubt'\<close> for, in the profiles shown, and the calibration that
  the lines at the end of the iteration compute from the flags as reviewed.
\<close>

record review =
  doubt_rows :: "nat list"
  recalibrated :: calibration

text \<open>Before the loop, \<^verbatim>\<open>n_err\<close> and \<^verbatim>\<open>err_ratio\<close> are computed from the first
  calibration, the log gets its first entry and \<^verbatim>\<open>doubt\<close> is false on every
  row.\<close>

definition before_loop :: "calibration \<Rightarrow> refine_state" where
  "before_loop c =
     (let n = count_err c;
          r = ratio_err n c
      in \<lparr>current = c, doubt = replicate (length (mistake c)) False,
          n_err = n, n_err_ratio = r,
          error_log = [\<lparr>err = n, err_ratio = r, p_optimal = cal_p_optimal c\<rparr>]\<rparr>)"

text \<open>
  One iteration. \<^verbatim>\<open>derr\<close> has an element for every mistake and is the order in
  which the rows of \<^verbatim>\<open>ind_toeval\<close>, the mistakes not in doubt, are taken by
  \<^verbatim>\<open>iloc\<close>: a mistake in doubt makes a position out of bounds, an IndexError.
  When there is a row to evaluate, a profile is shown, and
  \<^verbatim>\<open>mistake.mask[doubt] = True\<close> runs first: the mask of \<^verbatim>\<open>mistake\<close> is an array
  when a row is masked, and the constant \<^verbatim>\<open>nomask\<close>, which takes no item
  assignment, when none is: a TypeError. Then the answers are merged
  (\<^verbatim>\<open>doubt[...] = True\<close>) and the lines after the reviews assign \<^verbatim>\<open>mistake\<close>,
  \<^verbatim>\<open>indices\<close> and \<^verbatim>\<open>p_optimal\<close> from the new calibration; the two lines that
  would assign \<^verbatim>\<open>n_err\<close> and \<^verbatim>\<open>err_ratio\<close> are comments; the entry is appended.
\<close>

definition iteration :: "review \<Rightarrow> refine_state \<Rightarrow> error + refine_state" where
  "iteration r st =
     (let m = mistake (current st);
          derr = unmasked_true m;
          ind_toeval = unmasked_true (and_not m (doubt st))
      in if length ind_toeval < length derr then Inl IndexError
         else if ind_toeval \<noteq> [] \<and> None \<notin> set m then Inl TypeError
         else Inr (st\<lparr>current := recalibrated r,
                      doubt := (if ind_toeval = [] then doubt st
                                else fold (\<lambda>i d. d[i := True]) (doubt_rows r) (doubt st)),
                      error_log := error_log st @
                        [\<lparr>err = n_err st, err_ratio = n_err_ratio st,
                          p_optimal = cal_p_optimal (recalibrated r)\<rparr>]\<rparr>))"

text \<open>The loop \<^verbatim>\<open>for i in range(niter)\<close>, one review for each round; an exception
  ends it.\<close>

fun run_loop :: "review list \<Rightarrow> refine_state \<Rightarrow> error + refine_state" where
  "run_loop [] st = Inr st"
| "run_loop (r # rs) st =
     (case iteration r st of Inl e \<Rightarrow> Inl e | Inr st' \<Rightarrow> run_loop rs st')"

text \<open>
  \<^verbatim>\<open>doubt\<close> is assigned only when the flags have no column \<^verbatim>\<open>human\<close> yet; with
  such a column the first iteration reads a local variable that was never assigned.
  The result is the state at the return: \<^verbatim>\<open>error_log\<close> and the latest
  \<^verbatim>\<open>p_optimal\<close> are in it.
\<close>

definition human_calibrate_mistakes ::
    "bool \<Rightarrow> calibration \<Rightarrow> review list \<Rightarrow> error + refine_state" where
  "human_calibrate_mistakes human_in_flags c0 rs =
     (if human_in_flags \<and> rs \<noteq> [] then Inl UnboundLocalError
      else run_loop rs (before_loop c0))"

section \<open>The threshold optimizer\<close>

lemma nonzero_Nil_iff: "nonzero bs = [] \<longleftrightarrow> True \<notin> set bs"
  by (auto simp: nonzero_def filter_empty_conv in_set_conv_nth)

lemma argmin_less: "xs \<noteq> [] \<Longrightarrow> argmin xs < length xs"
proof -
  assume "xs \<noteq> []"
  then have "Min (set xs) \<in> set xs" by (intro Min_in) auto
  then have "takeWhile (\<lambda>x. x \<noteq> Min (set xs)) xs \<noteq> xs"
    by (auto simp: takeWhile_eq_all_conv)
  moreover have "length (takeWhile (\<lambda>x. x \<noteq> Min (set xs)) xs) \<le> length xs"
    by (rule length_takeWhile_le)
  ultimately show ?thesis
    unfolding argmin_def
    by (metis le_neq_implies_less takeWhile_eq_take take_all order_refl)
qed

lemma argmin_nth: "xs \<noteq> [] \<Longrightarrow> xs ! argmin xs = Min (set xs)"
  using argmin_less[of xs] nth_length_takeWhile[of "\<lambda>x. x \<noteq> Min (set xs)" xs]
  by (auto simp: argmin_def)

lemma argmin_first: "j < argmin xs \<Longrightarrow> xs ! j \<noteq> Min (set xs)"
proof -
  assume j: "j < argmin xs"
  let ?P = "\<lambda>x. x \<noteq> Min (set xs)"
  from j have "takeWhile ?P xs ! j = xs ! j"
    unfolding argmin_def by (rule takeWhile_nth)
  moreover from j have "takeWhile ?P xs ! j \<in> set (takeWhile ?P xs)"
    unfolding argmin_def by (rule nth_mem)
  ultimately show ?thesis
    using set_takeWhileD[of "xs ! j" ?P xs] by simp
qed

lemma argmin_le: "xs \<noteq> [] \<Longrightarrow> j < length xs \<Longrightarrow> xs ! argmin xs \<le> xs ! j"
  by (simp add: argmin_nth)

lemma grid_nth: "i < length (grid prob binflag) \<Longrightarrow> grid prob binflag ! i = - (real i / 10)"
  by (simp add: grid_def arange_def)

lemma grid_nonempty: "p_limit prob binflag < 0 \<Longrightarrow> grid prob binflag \<noteq> []"
  by (simp add: grid_def arange_def)

text \<open>
  C1, as the code has it. For scores and labels of equal length with a row labelled
  good, and a grid that is not empty (the smallest good score is below \<open>0.1\<close>, so
  \<open>p_limit < 0\<close>), \<^verbatim>\<open>estimate_p_optimal\<close> returns a candidate of the grid whose cost
  (false negatives plus false positives) is at most the cost of every candidate,
  together with that cost over the number of rows. Among the candidates of that cost
  it returns the first in the order of the grid, which runs downwards from \<open>0\<close>: every
  other candidate of minimal cost is more negative than the one returned.
\<close>

theorem estimate_p_optimal_first_minimum:
  assumes len: "length prob = length binflag"
    and good: "True \<in> set binflag"
    and lim: "p_limit prob binflag < 0"
  shows "\<exists>i. i < length (grid prob binflag) \<and>
      estimate_p_optimal prob binflag =
        Inr (grid prob binflag ! i,
             real (err_at prob binflag (grid prob binflag ! i)) / real (length prob)) \<and>
      (\<forall>j < length (grid prob binflag).
         err_at prob binflag (grid prob binflag ! i) \<le> err_at prob binflag (grid prob binflag ! j)) \<and>
      (\<forall>j < length (grid prob binflag).
         err_at prob binflag (grid prob binflag ! j) = err_at prob binflag (grid prob binflag ! i)
         \<longrightarrow> i \<le> j \<and> grid prob binflag ! j \<le> grid prob binflag ! i)"
proof -
  let ?P = "grid prob binflag"
  let ?err = "map (err_at prob binflag) ?P"
  let ?i = "argmin ?err"
  from lim have ne: "?P \<noteq> []" by (rule grid_nonempty)
  then have ne': "?err \<noteq> []" by simp
  from good have gs: "good_scores prob binflag \<noteq> []"
    by (simp add: good_scores_def nonzero_Nil_iff)
  have i: "?i < length ?P" using argmin_less[OF ne'] by simp
  have val: "?err ! ?i = Min (set ?err)" by (rule argmin_nth[OF ne'])
  have res: "estimate_p_optimal prob binflag =
      Inr (?P ! ?i, real (err_at prob binflag (?P ! ?i)) / real (length prob))"
    using len gs ne i val by (simp add: estimate_p_optimal_def Let_def)
  have least: "err_at prob binflag (?P ! ?i) \<le> err_at prob binflag (?P ! j)"
    if "j < length ?P" for j
    using argmin_le[OF ne', of j] that i by simp
  have first: "?i \<le> j \<and> ?P ! j \<le> ?P ! ?i"
    if j: "j < length ?P" and eq: "err_at prob binflag (?P ! j) = err_at prob binflag (?P ! ?i)" for j
  proof -
    have "\<not> j < ?i"
    proof
      assume "j < ?i"
      then have "?err ! j \<noteq> Min (set ?err)" by (rule argmin_first)
      with val eq j i show False by simp
    qed
    then have "?i \<le> j" by simp
    then show ?thesis using j i by (simp add: grid_nth)
  qed
  from i res least first show ?thesis by blast
qed

text \<open>The theorem at the scores \<open>-0.1, 0, -0.05\<close> with the labels good, good, bad.\<close>

theorem estimate_p_optimal_first_minimum_witness:
  "length [- 1 / 10, 0, - 1 / 20 :: real] = length [True, True, False] \<and>
   True \<in> set [True, True, False] \<and>
   p_limit [- 1 / 10, 0, - 1 / 20] [True, True, False] < 0 \<and>
   (\<exists>i. i < length (grid [- 1 / 10, 0, - 1 / 20] [True, True, False]) \<and>
      estimate_p_optimal [- 1 / 10, 0, - 1 / 20] [True, True, False] =
        Inr (grid [- 1 / 10, 0, - 1 / 20] [True, True, False] ! i,
             real (err_at [- 1 / 10, 0, - 1 / 20] [True, True, False]
                    (grid [- 1 / 10, 0, - 1 / 20] [True, True, False] ! i)) /
             real (length [- 1 / 10, 0, - 1 / 20 :: real])))"
proof -
  have h1: "length [- 1 / 10, 0, - 1 / 20 :: real] = length [True, True, False]" by simp
  have h2: "True \<in> set [True, True, False]" by simp
  have h3: "p_limit [- 1 / 10, 0, - 1 / 20] [True, True, False] < 0" by code_simp
  from estimate_p_optimal_first_minimum [OF h1 h2 h3] h1 h2 h3 show ?thesis by blast
qed

text \<open>
  C1 as the specification states it fails on ties. At these scores the grid is
  \<open>0, -0.1\<close>; both candidates cost one error (at \<open>0\<close> the good row \<open>-0.1\<close> is a false
  negative, at \<open>-0.1\<close> the bad row \<open>-0.05\<close> is a false positive), and the function
  returns \<open>0\<close>, not the more negative \<open>-0.1\<close>.
\<close>

theorem estimate_p_optimal_tie_counterexample:
  "estimate_p_optimal [- 1 / 10, 0, - 1 / 20] [True, True, False] = Inr (0, 1 / 3) \<and>
   grid [- 1 / 10, 0, - 1 / 20] [True, True, False] = [0, - 1 / 10] \<and>
   err_at [- 1 / 10, 0, - 1 / 20] [True, True, False] (- 1 / 10) =
     err_at [- 1 / 10, 0, - 1 / 20] [True, True, False] 0 \<and>
   (- 1 / 10 :: real) < 0"
  by code_simp

section \<open>The anomaly scorer\<close>

text \<open>
  C10. The output is sized from the first entry of \<^verbatim>\<open>features\<close>: with an empty
  feature table the function raises IndexError before any score exists, whatever the
  parameters and the method are, so every result needs a table that is not empty.
\<close>

theorem estimate_anomaly_empty_features:
  "estimate_anomaly sf [] params method = Inl IndexError"
  by (simp add: estimate_anomaly_def)

lemma estimate_loop_unknown_method:
  assumes "map_of features t = Some col" "method \<noteq> ''produtorium''" "method \<noteq> ''min''"
  shows "estimate_loop sf features method ((t, tp) # rest) prob = Inr None"
  using assms by (simp add: Let_def)

text \<open>
  C4, as the code has it. With a method that is neither \<^verbatim>\<open>'produtorium'\<close> nor
  \<^verbatim>\<open>'min'\<close>, a feature table that is not empty and fitted parameters that are not
  empty and all belong to columns of the table, \<^verbatim>\<open>estimate_anomaly\<close> raises
  nothing: it returns \<^verbatim>\<open>None\<close>, and so no scores.
\<close>

theorem estimate_anomaly_unknown_method:
  assumes "features \<noteq> []" and "params \<noteq> []"
    and "fst ` set params \<subseteq> fst ` set features"
    and "method \<noteq> ''produtorium''" and "method \<noteq> ''min''"
  shows "estimate_anomaly sf features params method = Inr None"
proof -
  from assms(2) obtain t tp rest where p: "params = (t, tp) # rest"
    by (cases params) auto
  with assms(3) have "t \<in> fst ` set features" by auto
  then obtain col where c: "map_of features t = Some col"
    by (metis map_of_eq_None_iff not_Some_eq)
  from assms(1) obtain k col0 fs where f: "features = (k, col0) # fs"
    by (cases features) auto
  show ?thesis
    unfolding estimate_anomaly_def p
    using estimate_loop_unknown_method[OF c assms(4,5)] f by simp
qed

text \<open>The theorem at a table of one feature and two rows, with the method \<^verbatim>\<open>'max'\<close>.\<close>

theorem estimate_anomaly_unknown_method_witness:
  "estimate_anomaly (\<lambda>p x. 1 / 2) [(''gradient'', [Some 1, None])]
     [(''gradient'', \<lparr>param = (1, 1, 0, 1), qlimit = 0\<rparr>)] ''max'' = Inr None"
  by (rule estimate_anomaly_unknown_method) simp_all

text \<open>
  C4 as the specification states it fails: the call with the method \<^verbatim>\<open>'max'\<close>
  ends without an error, and with no fitted parameter the method is never looked at
  and the scores, all \<open>0\<close>, are returned.
\<close>

theorem estimate_anomaly_unknown_method_counterexample:
  "estimate_anomaly (\<lambda>p x. 1 / 2) [(''gradient'', [Some 1, None])]
     [(''gradient'', \<lparr>param = (1, 1, 0, 1), qlimit = 0\<rparr>)] ''max'' = Inr None \<and>
   estimate_anomaly (\<lambda>p x. 1 / 2) [(''gradient'', [Some 1, None])] [] ''max'' = Inr (Some [0, 0])"
  by (simp add: estimate_anomaly_def Let_def)

text \<open>
  C8 fails on the code. The builtin \<^verbatim>\<open>min\<close> compares the two arrays as wholes, so a
  feature with two values that are not masked raises ValueError; here are two rows and
  two fitted features.
\<close>

theorem estimate_anomaly_min_raises:
  "estimate_anomaly (\<lambda>p x. 1 / 2)
     [(''gradient'', [Some 1, Some 2]), (''spike'', [Some 3, Some 4])]
     [(''gradient'', \<lparr>param = (1, 1, 0, 1), qlimit = 0\<rparr>),
      (''spike'', \<lparr>param = (1, 1, 0, 1), qlimit = 0\<rparr>)] ''min'' = Inl ValueError"
  by (simp add: estimate_anomaly_def Let_def py_min_def mask_select_def floor_zero_def mask_fill_def)

lemma floor_zero_map: "floor_zero tmp = map (\<lambda>y. if y = 0 then 1 / 10 ^ 15 else y) tmp"
  by (induction tmp) (simp_all add: floor_zero_def mask_fill_def)

lemma produtorium_step:
  "length prob = length col \<Longrightarrow>
   mask_assign prob (map (\<lambda>x. x \<noteq> None) col)
     (map (\<lambda>(x, y). x + y)
        (zip (mask_select prob (map (\<lambda>x. x \<noteq> None) col))
             (map ln (floor_zero (map (sf (param tp)) (compressed col)))))) =
   map (\<lambda>(pr, x). case x of None \<Rightarrow> pr | Some v \<Rightarrow> pr + log_sf sf tp v) (zip prob col)"
proof (induction prob col rule: list_induct2)
  case Nil
  show ?case by simp
next
  case (Cons pr prob x col)
  then show ?case
    by (cases x) (simp_all add: mask_select_def floor_zero_map log_sf_def)
qed

lemma row_terms_Nil: "row_terms sf features [] i = []"
  by (simp add: row_terms_def)

lemma row_terms_Cons:
  "map_of features t = Some col \<Longrightarrow>
   row_terms sf features ((t, tp) # rest) i =
     (case col ! i of None \<Rightarrow> [] | Some x \<Rightarrow> [log_sf sf tp x]) @ row_terms sf features rest i"
  by (simp add: row_terms_def)

lemma estimate_loop_produtorium:
  "well_formed features params (length prob) \<Longrightarrow>
   estimate_loop sf features ''produtorium'' params prob =
     Inr (Some (map (\<lambda>i. prob ! i + sum_list (row_terms sf features params i)) [0..<length prob]))"
proof (induction params arbitrary: prob)
  case Nil
  show ?case by (simp add: row_terms_Nil map_nth)
next
  case (Cons a params)
  obtain t tp where a: "a = (t, tp)" by (cases a)
  from Cons.prems a obtain col where col: "map_of features t = Some col" "length col = length prob"
    and wf: "well_formed features params (length prob)"
    by (auto simp: well_formed_def split: option.splits)
  let ?prob' = "map (\<lambda>(pr, x). case x of None \<Rightarrow> pr | Some v \<Rightarrow> pr + log_sf sf tp v) (zip prob col)"
  have len: "length ?prob' = length prob" using col by simp
  have step: "estimate_loop sf features ''produtorium'' (a # params) prob =
      estimate_loop sf features ''produtorium'' params ?prob'"
    using col produtorium_step[of prob col sf tp] by (simp add: a Let_def)
  have "estimate_loop sf features ''produtorium'' params ?prob' =
      Inr (Some (map (\<lambda>i. ?prob' ! i + sum_list (row_terms sf features params i)) [0..<length ?prob']))"
    using wf len by (intro Cons.IH) simp
  also have "map (\<lambda>i. ?prob' ! i + sum_list (row_terms sf features params i)) [0..<length ?prob'] =
      map (\<lambda>i. prob ! i + sum_list (row_terms sf features (a # params) i)) [0..<length prob]"
    unfolding len
  proof (rule map_cong[OF refl])
    fix i assume "i \<in> set [0..<length prob]"
    then have i: "i < length prob" by simp
    show "?prob' ! i + sum_list (row_terms sf features params i) =
          prob ! i + sum_list (row_terms sf features (a # params) i)"
      using i col by (cases "col ! i") (simp_all add: a row_terms_Cons[OF col(1)])
  qed
  finally show ?case using step by simp
qed


lemma row_terms_all_missing: "all_missing features params i \<Longrightarrow> row_terms sf features params i = []"
  by (induction params) (auto simp: all_missing_def row_terms_def split: option.splits)

lemma log_sf_nonpos:
  assumes "is_probability sf"
  shows "log_sf sf tp x \<le> 0"
proof -
  from assms have r: "0 \<le> sf (param tp) x" "sf (param tp) x \<le> 1"
    unfolding is_probability_def by blast+
  show ?thesis
  proof (cases "sf (param tp) x = 0")
    case True
    then show ?thesis by (simp add: log_sf_def)
  next
    case False
    with r have "0 < sf (param tp) x" by simp
    with r False show ?thesis by (simp add: log_sf_def)
  qed
qed

lemma map_of_unmask:
  "map_of (unmask t i v features) t' =
     map_option (\<lambda>col. if t' = t then col[i := Some v] else col) (map_of features t')"
  by (induction features) (auto simp: unmask_def)

lemma well_formed_unmask:
  "well_formed features params n \<Longrightarrow> well_formed (unmask t i v features) params n"
  by (induction params) (auto simp: well_formed_def map_of_unmask split: option.splits)

lemma row_terms_unmask_le:
  assumes sf: "is_probability sf" and col: "map_of features t = Some col" "col ! i = None"
    and i: "i < length col"
  shows "sum_list (row_terms sf (unmask t i v features) params i) \<le>
         sum_list (row_terms sf features params i)"
proof (induction params)
  case Nil
  show ?case by (simp add: row_terms_def)
next
  case (Cons a params)
  obtain t' tp where a: "a = (t', tp)" by (cases a)
  show ?case
  proof (cases "t' = t")
    case True
    have "row_terms sf features (a # params) i = row_terms sf features params i"
      using col True by (simp add: a row_terms_def)
    moreover have "row_terms sf (unmask t i v features) (a # params) i =
        log_sf sf tp v # row_terms sf (unmask t i v features) params i"
      using col i True by (simp add: a row_terms_def map_of_unmask)
    ultimately show ?thesis using Cons log_sf_nonpos[OF sf, of tp v] by simp
  next
    case False
    then have "row_terms sf (unmask t i v features) (a # params) i =
        (case map_of features t' of None \<Rightarrow> []
         | Some c \<Rightarrow> (case c ! i of None \<Rightarrow> [] | Some x \<Rightarrow> [log_sf sf tp x])) @
        row_terms sf (unmask t i v features) params i"
      by (cases "map_of features t'") (simp_all add: a row_terms_def map_of_unmask)
    moreover have "row_terms sf features (a # params) i =
        (case map_of features t' of None \<Rightarrow> []
         | Some c \<Rightarrow> (case c ! i of None \<Rightarrow> [] | Some x \<Rightarrow> [log_sf sf tp x])) @
        row_terms sf features params i"
      by (simp add: a row_terms_def)
    ultimately show ?thesis using Cons by simp
  qed
qed

lemma estimate_anomaly_closed_form:
  assumes "features = (k, col0) # fs" and "well_formed features params (length col0)"
  shows "estimate_anomaly sf features params ''produtorium'' =
     Inr (Some (map (\<lambda>i. sum_list (row_terms sf features params i)) [0..<length col0]))"
  using assms estimate_loop_produtorium[of features params "replicate (length col0) 0" sf]
  by (simp add: estimate_anomaly_def cong: map_cong)

text \<open>
  C6. With the method \<^verbatim>\<open>'produtorium'\<close>, on a table that is not empty and whose
  fitted features are columns as long as the first one, every row gets the sum of the
  logarithms of the floored survival probabilities of its values that are not masked,
  over the fitted features; a row in which every fitted feature is masked gets \<open>0\<close>
  (so does every row of a table that is masked everywhere).
\<close>

theorem estimate_anomaly_produtorium:
  assumes "is_probability sf" and "features = (k, col0) # fs"
    and "well_formed features params (length col0)"
  shows "\<exists>prob. estimate_anomaly sf features params ''produtorium'' = Inr (Some prob) \<and>
      length prob = length col0 \<and>
      (\<forall>i < length col0.
         prob ! i = sum_list (row_terms sf features params i) \<and>
         (all_missing features params i \<longrightarrow> prob ! i = 0))"
  using estimate_anomaly_closed_form[OF assms(2,3), of sf]
  by (simp add: row_terms_all_missing)

text \<open>The theorem at a table of two features and two rows, the second row masked in
  both, with survival probability one half throughout.\<close>

theorem estimate_anomaly_produtorium_witness:
  "is_probability (\<lambda>p x. 1 / 2) \<and>
   well_formed [(''gradient'', [Some 1, None]), (''spike'', [Some 2, None])]
     [(''gradient'', \<lparr>param = (1, 1, 0, 1), qlimit = 0\<rparr>),
      (''spike'', \<lparr>param = (2, 1, 0, 1), qlimit = 0\<rparr>)] (length [Some (1::real), None]) \<and>
   (\<exists>prob. estimate_anomaly (\<lambda>p x. 1 / 2)
        [(''gradient'', [Some 1, None]), (''spike'', [Some 2, None])]
        [(''gradient'', \<lparr>param = (1, 1, 0, 1), qlimit = 0\<rparr>),
         (''spike'', \<lparr>param = (2, 1, 0, 1), qlimit = 0\<rparr>)] ''produtorium'' = Inr (Some prob) \<and>
      length prob = 2 \<and> prob ! 0 = ln (1 / 2) + ln (1 / 2) \<and> prob ! 1 = 0)"
proof -
  let ?sf = "(\<lambda>p x. 1 / 2) :: survival"
  let ?features = "[(''gradient'', [Some 1, None]), (''spike'', [Some 2, None])] :: (string \<times> real option list) list"
  let ?params = "[(''gradient'', \<lparr>param = (1, 1, 0, 1), qlimit = 0\<rparr>),
      (''spike'', \<lparr>param = (2, 1, 0, 1), qlimit = 0\<rparr>)]"
  have h1: "is_probability ?sf" by (simp add: is_probability_def)
  have h2: "?features = (''gradient'', [Some 1, None]) # [(''spike'', [Some 2, None])]" by simp
  have h3: "well_formed ?features ?params (length [Some (1::real), None])"
    by (simp add: well_formed_def)
  have m: "all_missing ?features ?params 1" by (simp add: all_missing_def)
  have r: "sum_list (row_terms ?sf ?features ?params 0) = ln (1 / 2) + ln (1 / 2)"
    by (simp add: row_terms_def log_sf_def)
  from estimate_anomaly_produtorium [OF h1 h2 h3] m r h1 h3 show ?thesis
    by auto
qed

text \<open>
  C7. With the method \<^verbatim>\<open>'produtorium'\<close> and a survival function that returns
  probabilities, replacing the masked value of one feature at row \<open>i\<close> by an observed
  value, all else unchanged, does not increase the score of row \<open>i\<close>.
\<close>

theorem estimate_anomaly_monotone:
  assumes sf: "is_probability sf" and f: "features = (k, col0) # fs"
    and wf: "well_formed features params (length col0)"
    and col: "map_of features t = Some col" "col ! i = None" and i: "i < length col0"
    and len: "length col = length col0"
  shows "\<exists>prob prob'.
      estimate_anomaly sf features params ''produtorium'' = Inr (Some prob) \<and>
      estimate_anomaly sf (unmask t i v features) params ''produtorium'' = Inr (Some prob') \<and>
      prob' ! i \<le> prob ! i"
proof -
  let ?col0' = "if k = t then col0[i := Some v] else col0"
  have f': "unmask t i v features = (k, ?col0') # unmask t i v fs"
    by (simp add: f unmask_def)
  have len': "length ?col0' = length col0" by simp
  have wf': "well_formed (unmask t i v features) params (length ?col0')"
    unfolding len' using wf by (rule well_formed_unmask)
  have a: "estimate_anomaly sf features params ''produtorium'' =
      Inr (Some (map (\<lambda>j. sum_list (row_terms sf features params j)) [0..<length col0]))"
    by (rule estimate_anomaly_closed_form[OF f wf])
  have b: "estimate_anomaly sf (unmask t i v features) params ''produtorium'' =
      Inr (Some (map (\<lambda>j. sum_list (row_terms sf (unmask t i v features) params j)) [0..<length col0]))"
    using estimate_anomaly_closed_form[OF f' wf', of sf] by simp
  have "sum_list (row_terms sf (unmask t i v features) params i) \<le>
        sum_list (row_terms sf features params i)"
    using i len by (intro row_terms_unmask_le[OF sf col]) simp
  with a b i show ?thesis by simp
qed

text \<open>The theorem at a table in which the feature \<^verbatim>\<open>spike\<close> is masked everywhere,
  and its value at row 0 becomes \<open>3\<close>.\<close>

theorem estimate_anomaly_monotone_witness:
  "\<exists>prob prob'.
      estimate_anomaly (\<lambda>p x. 1 / 2)
        [(''gradient'', [Some 1, None]), (''spike'', [None, None])]
        [(''gradient'', \<lparr>param = (1, 1, 0, 1), qlimit = 0\<rparr>),
         (''spike'', \<lparr>param = (2, 1, 0, 1), qlimit = 0\<rparr>)] ''produtorium'' = Inr (Some prob) \<and>
      estimate_anomaly (\<lambda>p x. 1 / 2)
        (unmask ''spike'' 0 3 [(''gradient'', [Some 1, None]), (''spike'', [None, None])])
        [(''gradient'', \<lparr>param = (1, 1, 0, 1), qlimit = 0\<rparr>),
         (''spike'', \<lparr>param = (2, 1, 0, 1), qlimit = 0\<rparr>)] ''produtorium'' = Inr (Some prob') \<and>
      prob' ! 0 \<le> prob ! 0"
proof (rule estimate_anomaly_monotone)
  show "is_probability (\<lambda>p x. 1 / 2)" by (simp add: is_probability_def)
  show "[(''gradient'', [Some 1, None]), (''spike'', [None, None])] =
      (''gradient'', [Some 1, None]) # [(''spike'', [None, None])]" by simp
  show "well_formed [(''gradient'', [Some 1, None]), (''spike'', [None, None])]
      [(''gradient'', \<lparr>param = (1, 1, 0, 1), qlimit = 0\<rparr>),
       (''spike'', \<lparr>param = (2, 1, 0, 1), qlimit = 0\<rparr>)] (length [Some (1::real), None])"
    by (simp add: well_formed_def)
  show "map_of [(''gradient'', [Some 1, None]), (''spike'', [None, None])] ''spike'' =
      Some [None, None]" by simp
  show "[None, None :: real option] ! 0 = None" by simp
  show "0 < length [Some (1::real), None]" by simp
  show "length [None, None :: real option] = length [Some (1::real), None]" by simp
qed

section \<open>The error log of the refinement loop\<close>

lemma iteration_n_err: "iteration r st = Inr st' \<Longrightarrow> n_err st' = n_err st"
  by (auto simp: iteration_def Let_def split: if_splits)

lemma iteration_error_log:
  "iteration r st = Inr st' \<Longrightarrow> map err (error_log st') = map err (error_log st) @ [n_err st]"
  by (auto simp: iteration_def Let_def split: if_splits)

lemma run_loop_error_log:
  "run_loop rs st = Inr st' \<Longrightarrow>
   map err (error_log st') = map err (error_log st) @ replicate (length rs) (n_err st)"
proof (induction rs arbitrary: st)
  case Nil
  then show ?case by simp
next
  case (Cons r rs)
  from Cons.prems obtain st1 where s: "iteration r st = Inr st1" "run_loop rs st1 = Inr st'"
    by (auto split: sum.splits)
  from Cons.IH[OF s(2)] iteration_n_err[OF s(1)] iteration_error_log[OF s(1)]
  show ?case by (simp add: replicate_app_Cons_same)
qed

text \<open>Whatever the reviews and the calibrations of the iterations are, every entry of the
  log of a run that returns holds the error count of the calibration made before the
  loop.\<close>

lemma error_log_stale:
  "human_calibrate_mistakes h c0 rs = Inr st \<Longrightarrow>
   map err (error_log st) = replicate (Suc (length rs)) (count_err c0)"
  by (auto simp: human_calibrate_mistakes_def before_loop_def Let_def
           dest!: run_loop_error_log split: if_splits)

text \<open>With a mistake to review and no masked row, the iteration raises before it
  appends anything.\<close>

lemma human_calibrate_mistakes_nomask_raises:
  "human_calibrate_mistakes False
      \<lparr>mistake = [Some True, Some False], indices_err = [True, True], cal_p_optimal = - 1\<rparr>
      [\<lparr>doubt_rows = [],
        recalibrated = \<lparr>mistake = [Some False, Some False], indices_err = [True, True],
                        cal_p_optimal = - 2\<rparr>\<rparr>] = Inl TypeError"
  by code_simp


section \<open>The partitioner\<close>

lemma rows_iff: "i \<in> rows bs \<longleftrightarrow> i < length bs \<and> bs ! i"
  by (auto simp: rows_def nonzero_def)

lemma flagged_iff:
  "i \<in> flagged flag codes \<longleftrightarrow> i < length flag \<and> (\<exists>f. flag ! i = Some f \<and> f \<in> codes)"
  by (auto simp: flagged_def nonzero_def split: option.splits)

lemma flagged_Un: "flagged flag (A \<union> B) = flagged flag A \<union> flagged flag B"
  by (auto simp: flagged_iff)

lemma flagged_disjoint: "A \<inter> B = {} \<Longrightarrow> flagged flag A \<inter> flagged flag B = {}"
  by (auto simp: flagged_iff disjoint_iff)

lemma length_label_ind_default: "length (label_ind flag [1, 2] [3, 4]) = length flag"
  by (simp add: label_ind_def mask_fill_def flag_eq_def)

lemma nth_label_ind_default:
  "i < length flag \<Longrightarrow>
   label_ind flag [1, 2] [3, 4] ! i =
     (if flag ! i = Some 4 \<or> flag ! i = Some 3 then Some False
      else if flag ! i = Some 2 \<or> flag ! i = Some 1 then Some True else None)"
  by (simp add: label_ind_def mask_fill_def flag_eq_def)

lemma ind_good_eq: "ind_good ind = filter (\<lambda>i. ind ! i = Some True) [0..<length ind]"
  unfolding ind_good_def nonzero_def by (rule filter_cong) auto

lemma ind_bad_eq: "ind_bad ind = filter (\<lambda>i. ind ! i = Some False) [0..<length ind]"
  unfolding ind_bad_def nonzero_def by (rule filter_cong) auto

lemma set_ind_good_default: "set (ind_good (label_ind flag [1, 2] [3, 4])) = flagged flag {1, 2}"
  by (auto simp: ind_good_eq length_label_ind_default nth_label_ind_default flagged_iff
           split: if_splits)

lemma set_ind_bad_default: "set (ind_bad (label_ind flag [1, 2] [3, 4])) = flagged flag {3, 4}"
  by (auto simp: ind_bad_eq length_label_ind_default nth_label_ind_default flagged_iff
           split: if_splits)

lemma distinct_ind_good: "distinct (ind_good ind)"
  by (simp add: ind_good_eq)

lemma distinct_ind_bad: "distinct (ind_bad ind)"
  by (simp add: ind_bad_eq)

lemma ind_good_bound: "list_all (\<lambda>i. i < length ind) (ind_good ind)"
  by (simp add: ind_good_eq list_all_iff)

lemma ind_bad_bound: "list_all (\<lambda>i. i < length ind) (ind_bad ind)"
  by (simp add: ind_bad_eq list_all_iff)

lemma length_fold_update: "length (fold (\<lambda>i ys. ys[i := v]) idx xs) = length xs"
  by (induction idx arbitrary: xs) simp_all

lemma rows_fold_update:
  "list_all (\<lambda>i. i < length xs) idx \<Longrightarrow>
   rows (fold (\<lambda>i ys. ys[i := True]) idx xs) = rows xs \<union> set idx"
proof (induction idx arbitrary: xs)
  case Nil
  show ?case by simp
next
  case (Cons a idx)
  have "rows (xs[a := True]) = insert a (rows xs)"
    using Cons.prems by (auto simp: rows_iff nth_list_update split: if_splits)
  with Cons show ?case by simp
qed

lemma rows_replicate_False: "rows (replicate n False) = {}"
  by (auto simp: rows_iff)


lemma mark_ok:
  assumes "list_all (\<lambda>i. i < length src) idx" and "list_all (\<lambda>i. i < length a) src"
  shows "\<exists>a'. mark a src idx = Inr a' \<and> length a' = length a \<and>
           rows a' = rows a \<union> set (map (\<lambda>i. src ! i) idx)"
proof -
  have b: "list_all (\<lambda>i. i < length a) (map (\<lambda>i. src ! i) idx)"
    using assms by (auto simp: list_all_iff)
  then show ?thesis
    using assms(1) by (simp add: mark_def getitems_def setitems_def length_fold_update rows_fold_update)
qed

lemma permutation_bound:
  "is_permutation p n \<Longrightarrow> list_all (\<lambda>i. i < n) p"
  by (auto simp: is_permutation_def list_all_iff)

lemma permuted_distinct:
  assumes "is_permutation p (length xs)" and "distinct xs"
  shows "distinct (map (\<lambda>i. xs ! i) p)"
proof -
  from assms(1) have d: "distinct p" and s: "set p = {0..<length xs}"
    by (simp_all add: is_permutation_def)
  have "inj_on (\<lambda>i. xs ! i) (set p)"
    unfolding s using assms(2) by (auto simp: inj_on_def nth_eq_iff_index_eq)
  with d show ?thesis by (simp add: distinct_map)
qed

lemma permuted_set:
  assumes "is_permutation p (length xs)"
  shows "set (map (\<lambda>i. xs ! i) p) = set xs"
proof -
  from assms have s: "set p = {0..<length xs}" by (simp add: is_permutation_def)
  have "set (map (\<lambda>i. xs ! i) p) = (\<lambda>i. xs ! i) ` {0..<length xs}" by (simp add: s)
  also have "\<dots> = set xs" by (auto simp: set_conv_nth)
  finally show ?thesis .
qed

lemma permuted_length:
  assumes "is_permutation p n"
  shows "length p = n"
proof -
  from assms have "distinct p" "set p = {0..<n}" by (simp_all add: is_permutation_def)
  then show ?thesis by (metis card_atLeastLessThan distinct_card diff_zero)
qed

lemma round_fifth: "2 * nat (py2_round (real n * (2 / 10))) \<le> n"
proof -
  have "real n * (2 / 10) + 1 / 2 = real_of_int (2 * int n + 5) / real_of_int 10" by simp
  then have "\<lfloor>real n * (2 / 10) + 1 / 2\<rfloor> = (2 * int n + 5) div 10"
    by (simp only: floor_divide_of_int_eq)
  then have "py2_round (real n * (2 / 10)) = (2 * int n + 5) div 10"
    by (simp add: py2_round_def)
  moreover have "2 * ((2 * k + 5) div 10) \<le> k" if "0 \<le> k" for k :: int
    using that by presburger
  from this[of "int n"] have "2 * nat ((2 * int n + 5) div 10) \<le> n" by linarith
  ultimately show ?thesis by (simp only:)
qed

lemma round_half: "nat (py2_round (real n * (5 / 10))) \<le> n"
proof -
  have "real n * (5 / 10) + 1 / 2 = real_of_int (int n + 1) / real_of_int 2" by simp
  then have "\<lfloor>real n * (5 / 10) + 1 / 2\<rfloor> = (int n + 1) div 2"
    by (simp only: floor_divide_of_int_eq)
  then have "py2_round (real n * (5 / 10)) = (int n + 1) div 2"
    by (simp add: py2_round_def)
  then show ?thesis by simp
qed


lemma list_all_take: "list_all P xs \<Longrightarrow> list_all P (take n xs)"
  by (auto simp: list_all_iff dest: in_set_takeD)

lemma list_all_drop: "list_all P xs \<Longrightarrow> list_all P (drop n xs)"
  by (auto simp: list_all_iff dest: in_set_dropD)

lemma split_data_groups_rows:
  fixes flag :: "int option list" and good_flags bad_flags :: "int list"
    and perm_good perm_bad :: "nat list"
  defines "ind \<equiv> label_ind flag good_flags bad_flags"
  defines "good \<equiv> ind_good ind" and "bad \<equiv> ind_bad ind"
  defines "Nt \<equiv> nat (py2_round (real (length good) * (2 / 10)))"
    and "Nb \<equiv> nat (py2_round (real (length bad) * (5 / 10)))"
  defines "qg \<equiv> map (\<lambda>i. good ! i) perm_good" and "qb \<equiv> map (\<lambda>i. bad ! i) perm_bad"
  assumes pg: "is_permutation perm_good (length good)"
    and pb: "is_permutation perm_bad (length bad)"
  shows "\<exists>g. split_data_groups flag good_flags bad_flags perm_good perm_bad = Inr g \<and>
      length (ind_fit g) = length ind \<and> length (ind_test g) = length ind \<and>
      length (ind_err g) = length ind \<and>
      rows (ind_fit g) = set (drop (2 * Nt) qg) \<and>
      rows (ind_test g) = set (take Nt qg) \<union> set (take Nb qb) \<and>
      rows (ind_err g) = set (slice Nt (2 * Nt) qg) \<union> set (drop Nb qb)"
proof -
  let ?base = "replicate (length ind) False"
  have bg: "list_all (\<lambda>i. i < length good) perm_good"
    using pg by (rule permutation_bound)
  have bb: "list_all (\<lambda>i. i < length bad) perm_bad"
    using pb by (rule permutation_bound)
  have gN: "list_all (\<lambda>i. i < length a) good" if "length a = length ind" for a :: "bool list"
    using ind_good_bound[of ind] that by (simp add: good_def)
  have bN: "list_all (\<lambda>i. i < length a) bad" if "length a = length ind" for a :: "bool list"
    using ind_bad_bound[of ind] that by (simp add: bad_def)
  obtain test1 where test1: "mark ?base good (take Nt perm_good) = Inr test1"
      "length test1 = length ind" "rows test1 = set (take Nt qg)"
    using mark_ok[OF list_all_take[OF bg, of Nt] gN[of ?base]]
    by (auto simp: rows_replicate_False qg_def take_map)
  obtain err1 where err1: "mark ?base good (slice Nt (2 * Nt) perm_good) = Inr err1"
      "length err1 = length ind" "rows err1 = set (slice Nt (2 * Nt) qg)"
    using mark_ok[OF list_all_drop[OF list_all_take[OF bg, of "2 * Nt"], of Nt] gN[of ?base]]
    by (auto simp: rows_replicate_False qg_def take_map drop_map slice_def)
  obtain fit1 where fit1: "mark ?base good (drop (2 * Nt) perm_good) = Inr fit1"
      "length fit1 = length ind" "rows fit1 = set (drop (2 * Nt) qg)"
    using mark_ok[OF list_all_drop[OF bg, of "2 * Nt"] gN[of ?base]]
    by (auto simp: rows_replicate_False qg_def drop_map)
  obtain test2 where test2: "mark test1 bad (take Nb perm_bad) = Inr test2"
      "length test2 = length ind" "rows test2 = set (take Nt qg) \<union> set (take Nb qb)"
    using mark_ok[OF list_all_take[OF bb, of Nb] bN[OF test1(2)]] test1(2,3)
    by (auto simp: qb_def take_map)
  obtain err2 where err2: "mark err1 bad (drop Nb perm_bad) = Inr err2"
      "length err2 = length ind" "rows err2 = set (slice Nt (2 * Nt) qg) \<union> set (drop Nb qb)"
    using mark_ok[OF list_all_drop[OF bb, of Nb] bN[OF err1(2)]] err1(2,3)
    by (auto simp: qb_def drop_map)
  have "split_data_groups flag good_flags bad_flags perm_good perm_bad =
      Inr \<lparr>ind_fit = fit1, ind_test = test2, ind_err = err2\<rparr>"
    using test1(1) err1(1) fit1(1) test2(1) err2(1)
    unfolding split_data_groups_def Let_def ind_def[symmetric] good_def[symmetric]
      bad_def[symmetric] Nt_def[symmetric] Nb_def[symmetric]
    by simp
  with fit1 test2 err2 show ?thesis by simp
qed


lemma three_parts_append: "a \<le> b \<Longrightarrow> take a q @ slice a b q @ drop b q = q"
proof -
  assume "a \<le> b"
  then have "take a q = take a (take b q)" by (simp add: min_def)
  then have "take a q @ slice a b q = take b q"
    unfolding slice_def by (metis append_take_drop_id)
  then show ?thesis by (metis append_assoc append_take_drop_id)
qed

lemma three_parts:
  assumes "distinct q" and "a \<le> b"
  shows "set (take a q) \<inter> set (slice a b q) = {}"
    and "set (take a q) \<inter> set (drop b q) = {}"
    and "set (slice a b q) \<inter> set (drop b q) = {}"
    and "set (take a q) \<union> set (slice a b q) \<union> set (drop b q) = set q"
proof -
  have e: "take a q @ slice a b q @ drop b q = q" using assms(2) by (rule three_parts_append)
  from assms(1) have d: "distinct (take a q @ slice a b q @ drop b q)" by (simp only: e)
  from d show "set (take a q) \<inter> set (slice a b q) = {}" by auto
  from d show "set (take a q) \<inter> set (drop b q) = {}" by auto
  from d show "set (slice a b q) \<inter> set (drop b q) = {}" by auto
  have "set (take a q @ slice a b q @ drop b q) = set q" by (simp only: e)
  then show "set (take a q) \<union> set (slice a b q) \<union> set (drop b q) = set q" by auto
qed

lemma two_parts:
  assumes "distinct q"
  shows "set (take a q) \<inter> set (drop a q) = {}"
    and "set (take a q) \<union> set (drop a q) = set q"
proof -
  from assms have "distinct (take a q @ drop a q)" by simp
  then show "set (take a q) \<inter> set (drop a q) = {}" by (simp only: distinct_append)
  show "set (take a q) \<union> set (drop a q) = set q" by (metis append_take_drop_id set_append)
qed

lemma card_take: "distinct q \<Longrightarrow> a \<le> length q \<Longrightarrow> card (set (take a q)) = a"
  by (simp add: distinct_card)

lemma card_slice: "distinct q \<Longrightarrow> b \<le> length q \<Longrightarrow> card (set (slice a b q)) = b - a"
  by (simp add: distinct_card slice_def)

lemma split_default:
  fixes flag :: "int option list" and perm_good perm_bad :: "nat list"
  defines "G \<equiv> flagged flag {1, 2}" and "B \<equiv> flagged flag {3, 4}"
  defines "Nt \<equiv> nat (py2_round (real (card G) * (2 / 10)))"
    and "Nb \<equiv> nat (py2_round (real (card B) * (5 / 10)))"
  assumes pg: "is_permutation perm_good (card G)" and pb: "is_permutation perm_bad (card B)"
  shows "\<exists>g Tg Eg Fg Tb Eb.
      split_data_groups flag [1, 2] [3, 4] perm_good perm_bad = Inr g \<and>
      length (ind_fit g) = length flag \<and> length (ind_test g) = length flag \<and>
      length (ind_err g) = length flag \<and>
      rows (ind_fit g) = Fg \<and> rows (ind_test g) = Tg \<union> Tb \<and> rows (ind_err g) = Eg \<union> Eb \<and>
      Tg \<inter> Eg = {} \<and> Tg \<inter> Fg = {} \<and> Eg \<inter> Fg = {} \<and> Tg \<union> Eg \<union> Fg = G \<and>
      Tb \<inter> Eb = {} \<and> Tb \<union> Eb = B \<and>
      card Tg = Nt \<and> card Eg = Nt \<and> card Tb = Nb"
proof -
  let ?ind = "label_ind flag [1, 2] [3, 4]"
  let ?good = "ind_good ?ind" and ?bad = "ind_bad ?ind"
  let ?qg = "map (\<lambda>i. ?good ! i) perm_good" and ?qb = "map (\<lambda>i. ?bad ! i) perm_bad"
  have sg: "set ?good = G" unfolding G_def by (rule set_ind_good_default)
  have sb: "set ?bad = B" unfolding B_def by (rule set_ind_bad_default)
  have lg: "length ?good = card G"
    using distinct_card[OF distinct_ind_good[of ?ind]] sg by simp
  have lb: "length ?bad = card B"
    using distinct_card[OF distinct_ind_bad[of ?ind]] sb by simp
  have pg': "is_permutation perm_good (length ?good)" using pg lg by simp
  have pb': "is_permutation perm_bad (length ?bad)" using pb lb by simp
  have dg: "distinct ?qg" using pg' distinct_ind_good by (rule permuted_distinct)
  have db: "distinct ?qb" using pb' distinct_ind_bad by (rule permuted_distinct)
  have qg: "set ?qg = G" using permuted_set[OF pg'] sg by simp
  have qb: "set ?qb = B" using permuted_set[OF pb'] sb by simp
  have lqg: "length ?qg = card G" using permuted_length[OF pg] by simp
  have lqb: "length ?qb = card B" using permuted_length[OF pb] by simp
  have n2: "2 * Nt \<le> length ?qg" unfolding Nt_def lqg by (rule round_fifth)
  have nb: "Nb \<le> length ?qb" unfolding Nb_def lqb by (rule round_half)
  from split_data_groups_rows[OF pg' pb']
  obtain g where g: "split_data_groups flag [1, 2] [3, 4] perm_good perm_bad = Inr g"
      "length (ind_fit g) = length flag" "length (ind_test g) = length flag"
      "length (ind_err g) = length flag"
      "rows (ind_fit g) = set (drop (2 * Nt) ?qg)"
      "rows (ind_test g) = set (take Nt ?qg) \<union> set (take Nb ?qb)"
      "rows (ind_err g) = set (slice Nt (2 * Nt) ?qg) \<union> set (drop Nb ?qb)"
    unfolding lg lb Nt_def Nb_def length_label_ind_default by blast
  have le: "Nt \<le> 2 * Nt" by simp
  note tp = three_parts[OF dg le] two_parts[OF db, of Nb]
  have c1: "card (set (take Nt ?qg)) = Nt" using n2 by (intro card_take[OF dg]) simp
  have c2: "card (set (slice Nt (2 * Nt) ?qg)) = Nt" using card_slice[OF dg n2, of Nt] by simp
  have c3: "card (set (take Nb ?qb)) = Nb" by (rule card_take[OF db nb])
  show ?thesis
    apply (rule exI[of _ g])
    apply (rule exI[of _ "set (take Nt ?qg)"])
    apply (rule exI[of _ "set (slice Nt (2 * Nt) ?qg)"])
    apply (rule exI[of _ "set (drop (2 * Nt) ?qg)"])
    apply (rule exI[of _ "set (take Nb ?qb)"])
    apply (rule exI[of _ "set (drop Nb ?qb)"])
    using g tp c1 c2 c3 qg qb by (simp only: simp_thms) 
qed


text \<open>
  C2. For every flag array, whatever the two permutations drawn, the index sets
  \<^verbatim>\<open>fit\<close>, \<^verbatim>\<open>test\<close> and \<^verbatim>\<open>err\<close> that \<^verbatim>\<open>split_data_groups\<close> returns are
  pairwise disjoint, and their union is the set of the rows whose flag is a good code
  (1 or 2) or a bad code (3 or 4): a row with a missing flag or another code is in
  none of them.
\<close>

theorem split_data_groups_partition:
  assumes "is_permutation perm_good (card (flagged flag {1, 2}))"
    and "is_permutation perm_bad (card (flagged flag {3, 4}))"
  shows "\<exists>g. split_data_groups flag [1, 2] [3, 4] perm_good perm_bad = Inr g \<and>
      length (ind_fit g) = length flag \<and> length (ind_test g) = length flag \<and>
      length (ind_err g) = length flag \<and>
      rows (ind_fit g) \<inter> rows (ind_test g) = {} \<and>
      rows (ind_fit g) \<inter> rows (ind_err g) = {} \<and>
      rows (ind_test g) \<inter> rows (ind_err g) = {} \<and>
      rows (ind_fit g) \<union> rows (ind_test g) \<union> rows (ind_err g) = flagged flag ({1, 2} \<union> {3, 4})"
proof -
  have d: "flagged flag {1, 2} \<inter> flagged flag {3, 4} = {}"
    by (rule flagged_disjoint) simp
  from split_default[OF assms] obtain g Tg Eg Fg Tb Eb where
    g: "split_data_groups flag [1, 2] [3, 4] perm_good perm_bad = Inr g"
      "length (ind_fit g) = length flag" "length (ind_test g) = length flag"
      "length (ind_err g) = length flag"
    and r: "rows (ind_fit g) = Fg" "rows (ind_test g) = Tg \<union> Tb" "rows (ind_err g) = Eg \<union> Eb"
    and p: "Tg \<inter> Eg = {}" "Tg \<inter> Fg = {}" "Eg \<inter> Fg = {}" "Tg \<union> Eg \<union> Fg = flagged flag {1, 2}"
      "Tb \<inter> Eb = {}" "Tb \<union> Eb = flagged flag {3, 4}"
    by blast
  have "Fg \<inter> (Tg \<union> Tb) = {}" using p d by blast
  moreover have "Fg \<inter> (Eg \<union> Eb) = {}" using p d by blast
  moreover have "(Tg \<union> Tb) \<inter> (Eg \<union> Eb) = {}" using p d by blast
  moreover have "Fg \<union> (Tg \<union> Tb) \<union> (Eg \<union> Eb) = flagged flag ({1, 2} \<union> {3, 4})"
    unfolding flagged_Un using p by blast
  ultimately show ?thesis using g r by simp
qed

text \<open>The theorem at the flags \<open>1, 3, missing, 2, 1\<close>, with the good rows permuted by
  \<open>2, 0, 1\<close>.\<close>

theorem split_data_groups_partition_witness:
  "\<exists>g. split_data_groups [Some 1, Some 3, None, Some 2, Some 1] [1, 2] [3, 4] [2, 0, 1] [0] = Inr g \<and>
      length (ind_fit g) = length [Some 1, Some 3, None, Some 2, Some (1::int)] \<and>
      length (ind_test g) = length [Some 1, Some 3, None, Some 2, Some (1::int)] \<and>
      length (ind_err g) = length [Some 1, Some 3, None, Some 2, Some (1::int)] \<and>
      rows (ind_fit g) \<inter> rows (ind_test g) = {} \<and>
      rows (ind_fit g) \<inter> rows (ind_err g) = {} \<and>
      rows (ind_test g) \<inter> rows (ind_err g) = {} \<and>
      rows (ind_fit g) \<union> rows (ind_test g) \<union> rows (ind_err g) =
        flagged [Some 1, Some 3, None, Some 2, Some 1] ({1, 2} \<union> {3, 4})"
proof (rule split_data_groups_partition)
  show "is_permutation [2, 0, 1] (card (flagged [Some 1, Some 3, None, Some 2, Some 1] {1, 2}))"
    by code_simp
  show "is_permutation [0] (card (flagged [Some 1, Some 3, None, Some 2, Some 1] {3, 4}))"
    by code_simp
qed

text \<open>
  C5. With \<open>G\<close> the rows flagged good and \<open>B\<close> the rows flagged bad,
  \<^verbatim>\<open>round(|G| * .2)\<close> good rows go to \<^verbatim>\<open>test\<close>, as many good rows go to \<^verbatim>\<open>err\<close>,
  \<^verbatim>\<open>fit\<close> is made of all the other good rows, \<^verbatim>\<open>round(|B| * .5)\<close> bad rows go to
  \<^verbatim>\<open>test\<close>, all the other bad rows go to \<^verbatim>\<open>err\<close>, and no bad row is in
  \<^verbatim>\<open>fit\<close>. The rounding is that of Python 2.
\<close>

theorem split_data_groups_proportions:
  fixes flag :: "int option list"
  defines "G \<equiv> flagged flag {1, 2}" and "B \<equiv> flagged flag {3, 4}"
  assumes "is_permutation perm_good (card G)" and "is_permutation perm_bad (card B)"
  shows "\<exists>g. split_data_groups flag [1, 2] [3, 4] perm_good perm_bad = Inr g \<and>
      card (rows (ind_test g) \<inter> G) = nat (py2_round (real (card G) * (2 / 10))) \<and>
      card (rows (ind_err g) \<inter> G) = nat (py2_round (real (card G) * (2 / 10))) \<and>
      rows (ind_fit g) = G - (rows (ind_test g) \<union> rows (ind_err g)) \<and>
      card (rows (ind_test g) \<inter> B) = nat (py2_round (real (card B) * (5 / 10))) \<and>
      rows (ind_err g) \<inter> B = B - rows (ind_test g) \<and>
      rows (ind_fit g) \<inter> B = {}"
proof -
  have d: "G \<inter> B = {}" unfolding G_def B_def by (rule flagged_disjoint) simp
  from split_default[OF assms(3,4)[unfolded G_def B_def]] obtain g Tg Eg Fg Tb Eb where
    g: "split_data_groups flag [1, 2] [3, 4] perm_good perm_bad = Inr g"
    and r: "rows (ind_fit g) = Fg" "rows (ind_test g) = Tg \<union> Tb" "rows (ind_err g) = Eg \<union> Eb"
    and p: "Tg \<inter> Eg = {}" "Tg \<inter> Fg = {}" "Eg \<inter> Fg = {}" "Tg \<union> Eg \<union> Fg = G"
      "Tb \<inter> Eb = {}" "Tb \<union> Eb = B"
    and c: "card Tg = nat (py2_round (real (card G) * (2 / 10)))"
      "card Eg = nat (py2_round (real (card G) * (2 / 10)))"
      "card Tb = nat (py2_round (real (card B) * (5 / 10)))"
    unfolding G_def B_def by blast
  have "(Tg \<union> Tb) \<inter> G = Tg" using p d by blast
  moreover have "(Eg \<union> Eb) \<inter> G = Eg" using p d by blast
  moreover have "Fg = G - ((Tg \<union> Tb) \<union> (Eg \<union> Eb))" using p d by blast
  moreover have "(Tg \<union> Tb) \<inter> B = Tb" using p d by blast
  moreover have "(Eg \<union> Eb) \<inter> B = B - (Tg \<union> Tb)" using p d by blast
  moreover have "Fg \<inter> B = {}" using p d by blast
  ultimately show ?thesis using g r c by simp
qed

text \<open>The theorem at the same flags: one of the three good rows to \<^verbatim>\<open>test\<close>, one to
  \<^verbatim>\<open>err\<close>, one to \<^verbatim>\<open>fit\<close>, and the bad row to \<^verbatim>\<open>test\<close>.\<close>

theorem split_data_groups_proportions_witness:
  "\<exists>g. split_data_groups [Some 1, Some 3, None, Some 2, Some 1] [1, 2] [3, 4] [2, 0, 1] [0] = Inr g \<and>
      card (rows (ind_test g) \<inter> flagged [Some 1, Some 3, None, Some 2, Some 1] {1, 2}) =
        nat (py2_round (real (card (flagged [Some 1, Some 3, None, Some 2, Some 1] {1, 2})) * (2 / 10))) \<and>
      card (rows (ind_err g) \<inter> flagged [Some 1, Some 3, None, Some 2, Some 1] {1, 2}) =
        nat (py2_round (real (card (flagged [Some 1, Some 3, None, Some 2, Some 1] {1, 2})) * (2 / 10))) \<and>
      rows (ind_fit g) =
        flagged [Some 1, Some 3, None, Some 2, Some 1] {1, 2} - (rows (ind_test g) \<union> rows (ind_err g)) \<and>
      card (rows (ind_test g) \<inter> flagged [Some 1, Some 3, None, Some 2, Some 1] {3, 4}) =
        nat (py2_round (real (card (flagged [Some 1, Some 3, None, Some 2, Some 1] {3, 4})) * (5 / 10))) \<and>
      rows (ind_err g) \<inter> flagged [Some 1, Some 3, None, Some 2, Some 1] {3, 4} =
        flagged [Some 1, Some 3, None, Some 2, Some 1] {3, 4} - rows (ind_test g) \<and>
      rows (ind_fit g) \<inter> flagged [Some 1, Some 3, None, Some 2, Some 1] {3, 4} = {}"
proof (rule split_data_groups_proportions)
  show "is_permutation [2, 0, 1] (card (flagged [Some 1, Some 3, None, Some 2, Some 1] {1, 2}))"
    by code_simp
  show "is_permutation [0] (card (flagged [Some 1, Some 3, None, Some 2, Some 1] {3, 4}))"
    by code_simp
qed

lemma mark_Nil: "mark a [] [] = Inr a"
  by (simp add: mark_def getitems_def setitems_def)

text \<open>
  C9, as the code has it. On a flag array without any row flagged good or bad, the
  empty array included, \<^verbatim>\<open>split_data_groups\<close> raises nothing: both permutations
  are empty and the three index sets returned select no row.
\<close>

theorem split_data_groups_no_valid_rows:
  assumes "flagged flag ({1, 2} \<union> {3, 4}) = {}"
  shows "split_data_groups flag [1, 2] [3, 4] [] [] =
     Inr \<lparr>ind_fit = replicate (length flag) False, ind_test = replicate (length flag) False,
          ind_err = replicate (length flag) False\<rparr>"
proof -
  from assms have "flagged flag {1, 2} = {}" "flagged flag {3, 4} = {}"
    unfolding flagged_Un by simp_all
  then have "ind_good (label_ind flag [1, 2] [3, 4]) = []" "ind_bad (label_ind flag [1, 2] [3, 4]) = []"
    using set_ind_good_default[of flag] set_ind_bad_default[of flag] by simp_all
  then show ?thesis
    by (simp add: split_data_groups_def Let_def slice_def mark_Nil length_label_ind_default)
qed

text \<open>The theorem at the flags \<open>9, missing\<close>.\<close>

theorem split_data_groups_no_valid_rows_witness:
  "split_data_groups [Some 9, None] [1, 2] [3, 4] [] [] =
     Inr \<lparr>ind_fit = replicate (length [Some (9::int), None]) False,
          ind_test = replicate (length [Some (9::int), None]) False,
          ind_err = replicate (length [Some (9::int), None]) False\<rparr>"
  by (rule split_data_groups_no_valid_rows) code_simp

text \<open>
  C9 as the specification states it fails: the empty flag array and the flag array
  \<open>9, missing\<close> both get a partition, with no row in it, and no error.
\<close>

theorem split_data_groups_degenerate_counterexample:
  "split_data_groups [] [1, 2] [3, 4] [] [] = Inr \<lparr>ind_fit = [], ind_test = [], ind_err = []\<rparr> \<and>
   split_data_groups [Some 9, None] [1, 2] [3, 4] [] [] =
     Inr \<lparr>ind_fit = [False, False], ind_test = [False, False], ind_err = [False, False]\<rparr>"
  by code_simp

end
